theory Spec2Isabelle
  imports Main "HOL-Library.Word"
begin

unbundle bit_operations_syntax

section \<open>Go strings and the library functions the program calls\<close>

text \<open>
  A Go string is a sequence of bytes, here \<open>string\<close> (a list of 8-bit \<open>char\<close>).
  A rune is a Unicode code point, here a \<open>nat\<close>. Indices and lengths are Go \<open>int\<close>s,
  here \<open>int\<close> where the program computes with them (\<open>strings.Index\<close> returns \<open>-1\<close>).
\<close>

type_synonym rune = nat

definition strings_HasPrefix :: "string \<Rightarrow> string \<Rightarrow> bool" where
  "strings_HasPrefix s p = (take (length p) s = p)"

text \<open>\<open>strings.Index\<close>: the byte index of the first occurrence of \<open>sub\<close>, or \<open>-1\<close>.\<close>

fun strings_Index :: "string \<Rightarrow> string \<Rightarrow> int" where
  "strings_Index [] sub = (if sub = [] then 0 else - 1)"
| "strings_Index (c # s) sub =
     (if strings_HasPrefix (c # s) sub then 0
      else (let i = strings_Index s sub in if i < 0 then - 1 else i + 1))"

definition strings_Contains :: "string \<Rightarrow> string \<Rightarrow> bool" where
  "strings_Contains s sub = (0 \<le> strings_Index s sub)"

lemma strings_Index_range: "- 1 \<le> strings_Index s sub \<and> strings_Index s sub \<le> int (length s)"
  by (induction s) (auto simp: Let_def)

lemma strings_Index_found:
  "0 \<le> strings_Index s sub \<Longrightarrow>
     take (length sub) (drop (nat (strings_Index s sub)) s) = sub"
proof (induction s)
  case Nil
  then show ?case by (simp split: if_splits)
next
  case (Cons c s)
  show ?case
  proof (cases "strings_HasPrefix (c # s) sub")
    case True
    then show ?thesis by (simp add: strings_HasPrefix_def)
  next
    case False
    with Cons.prems have nn: "0 \<le> strings_Index s sub"
      by (simp add: Let_def split: if_splits)
    with False have "strings_Index (c # s) sub = strings_Index s sub + 1"
      by (simp add: Let_def)
    moreover have "nat (strings_Index s sub + 1) = Suc (nat (strings_Index s sub))"
      using nn by simp
    ultimately show ?thesis using Cons.IH [OF nn] by simp
  qed
qed

lemma strings_Index_fits:
  "0 \<le> strings_Index s sub \<Longrightarrow> nat (strings_Index s sub) + length sub \<le> length s"
proof -
  assume a: "0 \<le> strings_Index s sub"
  have "length (take (length sub) (drop (nat (strings_Index s sub)) s)) = length sub"
    using strings_Index_found [OF a] by simp
  moreover have "nat (strings_Index s sub) \<le> length s"
    using strings_Index_range [of s sub] by linarith
  ultimately show ?thesis by (simp add: min_def split: if_splits)
qed

text \<open>
  \<open>strings.Split\<close> for a non-empty separator: cut at each occurrence found by
  \<open>strings.Index\<close>, from the left; the result always has at least one element. The
  program calls it with the one-byte separators newline, comma and colon only. (For the
  empty separator Go splits after each UTF-8 sequence; that case is given bytewise.)
\<close>

function strings_Split :: "string \<Rightarrow> string \<Rightarrow> string list" where
  "strings_Split s sep =
     (if sep = [] then map (\<lambda>c. [c]) s
      else (let m = strings_Index s sep in
            if m < 0 then [s]
            else take (nat m) s # strings_Split (drop (nat m + length sep) s) sep))"
  by pat_completeness auto
termination
proof (relation "measure (\<lambda>(s, sep). length s)")
  show "wf (measure (\<lambda>(s, sep). length s))" by simp
next
  fix s sep :: string and m :: int
  assume ne: "sep \<noteq> []" and m: "m = strings_Index s sep" and nn: "\<not> m < 0"
  then have "nat m + length sep \<le> length s"
    using strings_Index_fits [of s sep] by simp
  with ne have "length (drop (nat m + length sep) s) < length s"
    by (cases sep) auto
  then show "((drop (nat m + length sep) s, sep), (s, sep)) \<in> measure (\<lambda>(s, sep). length s)"
    by simp
qed

declare strings_Split.simps [simp del]

fun strings_Join :: "string list \<Rightarrow> string \<Rightarrow> string" where
  "strings_Join [] sep = []"
| "strings_Join [x] sep = x"
| "strings_Join (x # y # ys) sep = x @ sep @ strings_Join (y # ys) sep"

subsection \<open>UTF-8\<close>

definition RuneError :: rune where
  "RuneError = 0xFFFD"

text \<open>
  \<open>utf8.DecodeRuneInString\<close>: the first rune of \<open>s\<close> and its width in bytes. An invalid
  or short encoding gives \<open>(RuneError, 1)\<close>, the empty string \<open>(RuneError, 0)\<close>.
\<close>

fun DecodeRuneInString :: "string \<Rightarrow> rune \<times> nat" where
  "DecodeRuneInString [] = (RuneError, 0)"
| "DecodeRuneInString (c0 # s) =
     (let s0 = (of_char c0 :: nat) in
      if s0 < 0x80 then (s0, 1)
      else if s0 < 0xC2 \<or> 0xF4 < s0 then (RuneError, 1)
      else
        (let sz = (if s0 < 0xE0 then 2 else if s0 < 0xF0 then 3 else (4::nat));
             lo = (if s0 = 0xE0 then 0xA0 else if s0 = 0xF0 then 0x90 else (0x80::nat));
             hi = (if s0 = 0xED then 0x9F else if s0 = 0xF4 then 0x8F else (0xBF::nat))
         in if length (c0 # s) < sz then (RuneError, 1)
            else
              (let s1 = (of_char (s ! 0) :: nat) in
               if s1 < lo \<or> hi < s1 then (RuneError, 1)
               else if sz \<le> 2 then ((s0 mod 32) * 64 + s1 mod 64, 2)
               else
                 (let s2 = (of_char (s ! 1) :: nat) in
                  if s2 < 0x80 \<or> 0xBF < s2 then (RuneError, 1)
                  else if sz \<le> 3
                    then ((s0 mod 16) * 4096 + (s1 mod 64) * 64 + s2 mod 64, 3)
                  else
                    (let s3 = (of_char (s ! 2) :: nat) in
                     if s3 < 0x80 \<or> 0xBF < s3 then (RuneError, 1)
                     else ((s0 mod 8) * 262144 + (s1 mod 64) * 4096
                             + (s2 mod 64) * 64 + s3 mod 64, 4))))))"

lemma DecodeRuneInString_width: "s \<noteq> [] \<Longrightarrow> 1 \<le> snd (DecodeRuneInString s)"
  by (cases s) (simp_all add: Let_def)

text \<open>The conversion \<open>[]rune(s)\<close>: decode rune after rune.\<close>

function runes_of_string :: "string \<Rightarrow> rune list" where
  "runes_of_string s =
     (if s = [] then []
      else fst (DecodeRuneInString s) # runes_of_string (drop (snd (DecodeRuneInString s)) s))"
  by pat_completeness auto
termination
proof (relation "measure length")
  show "wf (measure length)" by simp
next
  fix s :: string
  assume "s \<noteq> []"
  then show "(drop (snd (DecodeRuneInString s)) s, s) \<in> measure length"
    using DecodeRuneInString_width [of s] by (cases s) auto
qed

declare runes_of_string.simps [simp del]

text \<open>
  The conversion \<open>string(rs)\<close> of a rune slice: the UTF-8 encoding of each rune; a
  surrogate or a value above \<open>U+10FFFF\<close> is encoded as \<open>U+FFFD\<close>.
\<close>

definition EncodeRune :: "rune \<Rightarrow> string" where
  "EncodeRune r =
     (if r \<le> 0x7F then [char_of r]
      else if r \<le> 0x7FF then [char_of (0xC0 + r div 64), char_of (0x80 + r mod 64)]
      else if 0x10FFFF < r \<or> (0xD800 \<le> r \<and> r \<le> 0xDFFF)
        then [char_of (0xEF::nat), char_of (0xBF::nat), char_of (0xBD::nat)]
      else if r \<le> 0xFFFF
        then [char_of (0xE0 + r div 4096), char_of (0x80 + (r div 64) mod 64),
              char_of (0x80 + r mod 64)]
      else [char_of (0xF0 + r div 262144), char_of (0x80 + (r div 4096) mod 64),
            char_of (0x80 + (r div 64) mod 64), char_of (0x80 + r mod 64)])"

definition string_of_runes :: "rune list \<Rightarrow> string" where
  "string_of_runes rs = concat (map EncodeRune rs)"

subsection \<open>strings.TrimSpace\<close>

text \<open>\<open>unicode.IsSpace\<close>: the white space of Latin-1 and of the Unicode property.\<close>

definition IsSpace :: "rune \<Rightarrow> bool" where
  "IsSpace r =
     (r = 0x09 \<or> r = 0x0A \<or> r = 0x0B \<or> r = 0x0C \<or> r = 0x0D \<or> r = 0x20
      \<or> r = 0x85 \<or> r = 0xA0 \<or> r = 0x1680 \<or> (0x2000 \<le> r \<and> r \<le> 0x200A)
      \<or> r = 0x2028 \<or> r = 0x2029 \<or> r = 0x202F \<or> r = 0x205F \<or> r = 0x3000)"

definition RuneStart :: "char \<Rightarrow> bool" where
  "RuneStart c = (\<not> (0x80 \<le> (of_char c :: nat) \<and> (of_char c :: nat) < 0xC0))"

text \<open>
  The backward scan of \<open>utf8.DecodeLastRuneInString\<close>:
  \<^verbatim>\<open>for start--; start >= lim; start-- { if RuneStart(s[start]) { break } }\<close>
  entered with \<open>start\<close> already decremented.
\<close>

function lastRuneStart :: "string \<Rightarrow> int \<Rightarrow> int \<Rightarrow> int" where
  "lastRuneStart s start lim =
     (if lim \<le> start \<and> 0 \<le> start
      then (if RuneStart (s ! nat start) then start else lastRuneStart s (start - 1) lim)
      else start)"
  by pat_completeness auto
termination
  by (relation "measure (\<lambda>(s, start, lim). nat (start + 1))") auto

declare lastRuneStart.simps [simp del]

definition DecodeLastRuneInString :: "string \<Rightarrow> rune \<times> nat" where
  "DecodeLastRuneInString s =
     (let end = int (length s) in
      if end = 0 then (RuneError, 0)
      else
        (let r = (of_char (s ! nat (end - 1)) :: nat) in
         if r < 0x80 then (r, 1)
         else
           (let lim = (if end - 4 < 0 then 0 else end - 4);
                start0 = lastRuneStart s (end - 2) lim;
                start = (if start0 < 0 then 0 else start0);
                (r, size) = DecodeRuneInString (drop (nat start) s)
            in if start + int size \<noteq> end then (RuneError, 1) else (r, size))))"

lemma lastRuneStart_le: "lastRuneStart s start lim \<le> start"
proof (induction s start lim rule: lastRuneStart.induct)
  case (1 s start lim)
  show ?case
  proof (cases "lim \<le> start \<and> 0 \<le> start \<and> \<not> RuneStart (s ! nat start)")
    case True
    then have "lastRuneStart s start lim = lastRuneStart s (start - 1) lim"
      by (subst lastRuneStart.simps) simp
    moreover have "lastRuneStart s (start - 1) lim \<le> start - 1"
      using True "1.IH" by simp
    ultimately show ?thesis by simp
  next
    case False
    then show ?thesis by (subst lastRuneStart.simps) auto
  qed
qed

lemma DecodeLastRuneInString_width:
  "s \<noteq> [] \<Longrightarrow> 1 \<le> snd (DecodeLastRuneInString s)"
proof -
  assume ne: "s \<noteq> []"
  define e where "e = int (length s)"
  define lim where "lim = (if e - 4 < 0 then 0 else e - 4)"
  define start where
    "start = (if lastRuneStart s (e - 2) lim < 0 then 0 else lastRuneStart s (e - 2) lim)"
  define p where "p = DecodeRuneInString (drop (nat start) s)"
  have e: "0 < e" using ne by (simp add: e_def)
  have D: "DecodeLastRuneInString s =
             (if (of_char (s ! nat (e - 1)) :: nat) < 0x80 then (of_char (s ! nat (e - 1)), 1)
              else if start + int (snd p) \<noteq> e then (RuneError, 1) else p)"
    using ne
    by (simp add: DecodeLastRuneInString_def Let_def case_prod_beta e_def lim_def start_def
          p_def)
  have "start < e"
    using lastRuneStart_le [of s "e - 2" lim] e by (simp add: start_def)
  then have "start + int (snd p) = e \<Longrightarrow> 1 \<le> snd p"
    by simp
  then show ?thesis
    unfolding D by auto
qed

text \<open>
  \<open>strings.TrimSpace\<close> removes the leading and the trailing white space runes: the
  leading ones decoded forwards (\<open>TrimLeftFunc\<close>), the trailing ones backwards
  (\<open>TrimRightFunc\<close>).
\<close>

function TrimLeftSpace :: "string \<Rightarrow> string" where
  "TrimLeftSpace s =
     (if s = [] then []
      else if IsSpace (fst (DecodeRuneInString s))
        then TrimLeftSpace (drop (snd (DecodeRuneInString s)) s)
      else s)"
  by pat_completeness auto
termination
proof (relation "measure length")
  show "wf (measure length)" by simp
next
  fix s :: string
  assume "s \<noteq> []"
  then show "(drop (snd (DecodeRuneInString s)) s, s) \<in> measure length"
    using DecodeRuneInString_width [of s] by (cases s) auto
qed

function TrimRightSpace :: "string \<Rightarrow> string" where
  "TrimRightSpace s =
     (if s = [] then []
      else if IsSpace (fst (DecodeLastRuneInString s))
        then TrimRightSpace (take (length s - snd (DecodeLastRuneInString s)) s)
      else s)"
  by pat_completeness auto
termination
proof (relation "measure length")
  show "wf (measure length)" by simp
next
  fix s :: string
  assume "s \<noteq> []"
  then show "(take (length s - snd (DecodeLastRuneInString s)) s, s) \<in> measure length"
    using DecodeLastRuneInString_width [of s] by (cases s) auto
qed

declare TrimLeftSpace.simps [simp del] TrimRightSpace.simps [simp del]

definition strings_TrimSpace :: "string \<Rightarrow> string" where
  "strings_TrimSpace s = TrimRightSpace (TrimLeftSpace s)"

subsection \<open>Decimal numbers\<close>

text \<open>\<open>strconv.FormatUint(x, 10)\<close>, also what \<open>%d\<close> prints for a \<open>uint64\<close>.\<close>

fun decimal :: "nat \<Rightarrow> string" where
  "decimal n = (if n < 10 then [char_of (48 + n)]
                else decimal (n div 10) @ [char_of (48 + n mod 10)])"

declare decimal.simps [simp del]

definition FormatUint :: "64 word \<Rightarrow> string" where
  "FormatUint x = decimal (unat x)"

section \<open>Errors, panics and the outside world\<close>

text \<open>
  A Go \<open>error\<close> is \<open>error option\<close> (\<open>None\<close> is \<open>nil\<close>). \<open>fmt.Errorf\<close> keeps its format
  string and arguments; \<open>External\<close> is an error handed back by the operating system
  (a failed command, a file that cannot be read or written). A run-time panic ends the
  function without a return value.
\<close>

datatype error = External string | Errorf string "arg list"
  and arg = S string | U "64 word" | E error

datatype 'a result = Panic string | Return 'a

text \<open>
  Everything the program asks of the outside world is an event: a command run with
  \<open>exec.Command\<close> (its argument vector), a file read or written, the lookup of a
  partition UUID (\<open>partutil.GetPartUUID\<close>), a line written to the log. The world
  answers each event, given everything that happened before, with success or failure and
  a text: the standard output of a command, the content of a file, the UUID, or the
  error. The trace is the list of events so far, oldest first.
\<close>

datatype event =
    Exec "string list"
  | ReadFile string
  | WriteFile string string
  | GetPartUUID string
  | Log string

datatype reply = Reply (ok: bool) (out: string)

type_synonym world = "event list \<Rightarrow> reply"

definition call :: "world \<Rightarrow> event \<Rightarrow> event list \<Rightarrow> reply \<times> event list" where
  "call w ev tr = (w (tr @ [ev]), tr @ [ev])"

section \<open>tools/seal\_oem\_partition.go\<close>

subsection \<open>appendDMEntryToGRUB\<close>

definition entryString :: "string \<Rightarrow> string \<Rightarrow> string \<Rightarrow> string \<Rightarrow> 64 word \<Rightarrow> string" where
  \<open>entryString name partUUID hash salt oemFSSizeSector =
     name @ '' none ro 1, 0 '' @ FormatUint oemFSSizeSector
       @ '' verity payload=PARTUUID='' @ partUUID @ '' hashtree=PARTUUID='' @ partUUID
       @ '' hashstart='' @ FormatUint oemFSSizeSector @ '' alg=sha256 ''
       @ ''root_hexdigest='' @ hash @ '' salt='' @ salt @ ''"''\<close>

text \<open>
  The body of the loop over the lines of grub.cfg: the new value of \<open>lines[idx]\<close>.
  Slicing \<open>line[:len(line)-1]\<close> and the write \<open>lineBuf[startPos+4] = '2'\<close> panic when
  out of range.
\<close>

definition appendDMEntryToGRUB_line :: "string \<Rightarrow> string \<Rightarrow> string result" where
  "appendDMEntryToGRUB_line entry line =
     (if \<not> strings_Contains line ''dm='' then Return line
      else
        (let startPos = strings_Index line ''dm='' in
         if int (length line) - 1 < 0 then Panic ''slice bounds out of range''
         else
           (let lineBuf = runes_of_string (take (nat (int (length line) - 1)) line) in
            if startPos + 4 < 0 \<or> int (length lineBuf) \<le> startPos + 4
              then Panic ''index out of range''
            else Return (strings_Join
                   (strings_Split
                      (string_of_runes (lineBuf[nat (startPos + 4) := of_char (CHR ''2'')]))
                      '','' @ [entry])
                   '',''))))"

fun appendDMEntryToGRUB_loop :: "string \<Rightarrow> string list \<Rightarrow> string list result" where
  "appendDMEntryToGRUB_loop entry [] = Return []"
| "appendDMEntryToGRUB_loop entry (line # lines) =
     (case appendDMEntryToGRUB_line entry line of
        Panic m \<Rightarrow> Panic m
      | Return line' \<Rightarrow>
          (case appendDMEntryToGRUB_loop entry lines of
             Panic m \<Rightarrow> Panic m
           | Return lines' \<Rightarrow> Return (line' # lines')))"

definition appendDMEntryToGRUB ::
  "world \<Rightarrow> string \<Rightarrow> string \<Rightarrow> string \<Rightarrow> string \<Rightarrow> string \<Rightarrow> 64 word \<Rightarrow> event list
     \<Rightarrow> error option result \<times> event list" where
  "appendDMEntryToGRUB w grubPath0 name partUUID hash salt oemFSSize4K tr =
     (let grubPath = grubPath0 @ ''/grub.cfg'';
          oemFSSizeSector = push_bit 3 oemFSSize4K;
          entry = entryString name partUUID hash salt oemFSSizeSector;
          (rd, tr1) = call w (ReadFile grubPath) tr
      in if \<not> ok rd then
           (Return (Some (Errorf
              (''cannot read grub.cfg at %q, ''
                @ ''input: grubPath=%q, name=%q, partUUID=%q, oemFSSize4K=%d, hash=%q, salt=%q, ''
                @ ''error msg:(%v)'')
              [S grubPath, S grubPath, S name, S partUUID, U oemFSSize4K, S hash, S salt,
               E (External (out rd))])), tr1)
         else
           (case appendDMEntryToGRUB_loop entry (strings_Split (out rd) ''\<newline>'') of
              Panic m \<Rightarrow> (Panic m, tr1)
            | Return lines \<Rightarrow>
                (let (wr, tr2) = call w (WriteFile grubPath (strings_Join lines ''\<newline>'')) tr1
                 in if \<not> ok wr then
                      (Return (Some (Errorf
                         (''cannot write to grub.cfg at %q, ''
                           @ ''input: grubPath=%q, name=%q, partUUID=%q, oemFSSize4K=%d, hash=%q, salt=%q, ''
                           @ ''error msg:(%v)'')
                         [S grubPath, S grubPath, S name, S partUUID, U oemFSSize4K, S hash,
                          S salt, E (External (out wr))])), tr2)
                    else (Return None, tr2))))"

subsection \<open>The docker image of veritysetup\<close>

definition loadVeritysetupImage ::
  "world \<Rightarrow> string \<Rightarrow> event list \<Rightarrow> (string \<times> error option) result \<times> event list" where
  "loadVeritysetupImage w imgPath tr =
     (let (r1, tr1) = call w (Exec [''sudo'', ''docker'', ''load'', ''-i'', imgPath]) tr in
      if \<not> ok r1 then
        (Return ([], Some (Errorf
           (''error in loading docker image, '' @ ''input: imgPath=%q, error msg: (%v)'')
           [S imgPath, E (External (out r1))])), tr1)
      else
        (let (r2, tr2) =
               call w (Exec [''sudo'', ''docker'', ''images'', ''veritysetup:veritysetup'', ''-q'']) tr1
         in if \<not> ok r2 then
              (Return ([], Some (Errorf
                 (''error in reading image ID, '' @ ''cmd:%q, error msg: (%v)'')
                 [S ''sudo docker images veritysetup:veritysetup -q'', E (External (out r2))])),
               tr2)
            else if length (out r2) = 0 then
              (Return ([], Some (Errorf
                 (''image ID not found, '' @ ''input: imgPath=%q'') [S imgPath])), tr2)
            else
              (let imageID = out r2 in
               (Return (take (length imageID - 1) imageID, None), tr2))))"

definition removeVeritysetupImage ::
  "world \<Rightarrow> string \<Rightarrow> event list \<Rightarrow> error option \<times> event list" where
  "removeVeritysetupImage w imageID tr =
     (let (r, tr1) = call w (Exec [''sudo'', ''docker'', ''rmi'', imageID]) tr in
      if \<not> ok r then
        (Some (Errorf (''error in removing docker image, '' @ ''id=%q, error msg: (%v)'')
           [S imageID, E (External (out r))]), tr1)
      else (None, tr1))"

subsection \<open>Mounting and unmounting\<close>

text \<open>The slice \<open>dir[:len(dir)-1]\<close> panics when \<open>mktemp\<close> printed nothing.\<close>

definition mountEFIPartition ::
  "world \<Rightarrow> event list \<Rightarrow> (string \<times> error option) result \<times> event list" where
  "mountEFIPartition w tr =
     (let (r1, tr1) = call w (Exec [''mktemp'', ''-d'']) tr in
      if \<not> ok r1 then
        (Return ([], Some (Errorf
           (''error in creating tmp directory, '' @ ''error msg: (%v)'')
           [E (External (out r1))])), tr1)
      else
        (let dir0 = out r1 in
         if int (length dir0) - 1 < 0 then (Panic ''slice bounds out of range'', tr1)
         else
           (let dir = take (nat (int (length dir0) - 1)) dir0;
                (r2, tr2) = call w (Exec [''sudo'', ''mount'', ''/dev/sda12'', dir]) tr1
            in if \<not> ok r2 then
                 (Return ([], Some (Errorf
                    (''error in mounting /dev/sda12 at %q, '' @ ''error msg: (%v)'')
                    [S dir, E (External (out r2))])), tr2)
               else (Return (dir @ ''/efi/boot'', None), tr2))))"

definition unmountOEMPartition :: "world \<Rightarrow> event list \<Rightarrow> error option \<times> event list" where
  "unmountOEMPartition w tr =
     (let (r1, tr1) = call w (Exec [''df'']) tr in
      if \<not> ok r1 then
        (Some (Errorf (''error in running df, '' @ ''error msg: (%v)'')
           [E (External (out r1))]), tr1)
      else if \<not> strings_Contains (out r1) ''/dev/sda8'' then (None, tr1)
      else
        (let (r2, tr2) = call w (Exec [''sudo'', ''umount'', ''/dev/sda8'']) tr1 in
         if \<not> ok r2 then
           (Some (Errorf (''error in unmounting /dev/sda8, '' @ ''error msg: (%v)'')
              [E (External (out r2))]), tr2)
         else (None, tr2)))"

subsection \<open>veritysetup\<close>

text \<open>Indexing a slice, \<open>xs[i]\<close>: a panic when out of range.\<close>

definition index :: "'a list \<Rightarrow> int \<Rightarrow> 'a result" where
  "index xs i = (if 0 \<le> i \<and> i < int (length xs) then Return (xs ! nat i)
                 else Panic ''index out of range'')"

text \<open>The loop over the lines of the tool's output; the state is \<open>(hash, salt)\<close>.\<close>

fun veritysetup_loop :: "string list \<Rightarrow> string \<times> string \<Rightarrow> (string \<times> string) result" where
  "veritysetup_loop [] (hash, salt) = Return (hash, salt)"
| "veritysetup_loop (line # lines) (hash, salt) =
     (if strings_HasPrefix line ''Root hash:'' then
        (case index (strings_Split line '':'') 1 of
           Panic m \<Rightarrow> Panic m
         | Return v \<Rightarrow> veritysetup_loop lines (strings_TrimSpace v, salt))
      else if strings_HasPrefix line ''Salt:'' then
        (case index (strings_Split line '':'') 1 of
           Panic m \<Rightarrow> Panic m
         | Return v \<Rightarrow> veritysetup_loop lines (hash, strings_TrimSpace v))
      else veritysetup_loop lines (hash, salt))"

definition veritysetup ::
  "world \<Rightarrow> string \<Rightarrow> 64 word \<Rightarrow> event list
     \<Rightarrow> (string \<times> string \<times> error option) result \<times> event list" where
  \<open>veritysetup w imageID oemFSSize4K tr =
     (let dataBlocks = ''--data-blocks='' @ FormatUint oemFSSize4K;
          hashOffset = ''--hash-offset='' @ FormatUint (push_bit 12 oemFSSize4K);
          (r, tr1) = call w (Exec
             [''sudo'', ''docker'', ''run'', ''--rm'', ''--name'', ''veritysetup'',
              ''--privileged'', ''-v'', ''/dev:/dev'', imageID, ''veritysetup'',
              ''format'', ''/dev/sda8'', ''/dev/sda8'', ''--data-block-size=4096'',
              ''--hash-block-size=4096'', dataBlocks, hashOffset, ''--no-superblock'',
              ''--format=0'']) tr
      in if \<not> ok r then
           (Return ([], [], Some (Errorf
              (''error in running docker veritysetup, ''
                 @ ''input: oemFSSize4K=%d, error msg: (%v)'')
              [U oemFSSize4K, E (External (out r))])), tr1)
         else
           (case veritysetup_loop (strings_Split (out r) ''\<newline>'') ([], []) of
              Panic m \<Rightarrow> (Panic m, tr1)
            | Return (hash, salt) \<Rightarrow>
                if hash = [] \<or> salt = [] then
                  (Return ([], [], Some (Errorf
                     (''error in veritsetup output format, cannot find "Salt:" or "Root hash:", ''
                        @ ''input: oemFSSize4K=%d, veritysetup output: %s'')
                     [U oemFSSize4K, S (out r)])), tr1)
                else (Return (hash, salt, None), tr1)))\<close>

subsection \<open>SealOEMPartition\<close>

definition log_Println :: "world \<Rightarrow> string \<Rightarrow> event list \<Rightarrow> event list" where
  "log_Println w msg tr = snd (call w (Log msg) tr)"

definition SealOEMPartition ::
  "world \<Rightarrow> 64 word \<Rightarrow> event list \<Rightarrow> error option result \<times> event list" where
  "SealOEMPartition w oemFSSize4K tr0 =
     (let devName = ''oemroot''; veritysetupImgPath = ''./veritysetup.img'' in
      case loadVeritysetupImage w veritysetupImgPath tr0 of
        (Panic m, tr1) \<Rightarrow> (Panic m, tr1)
      | (Return (imageID, Some err), tr1) \<Rightarrow>
          (Return (Some (Errorf ''cannot load veritysetup image at %q, error msg:(%v)''
             [S veritysetupImgPath, E err])), tr1)
      | (Return (imageID, None), tr1) \<Rightarrow>
     (let tr2 = log_Println w ''docker image for veritysetup loaded.'' tr1 in
      case unmountOEMPartition w tr2 of
        (Some err, tr3) \<Rightarrow>
          (Return (Some (Errorf ''cannot umount OEM partition, error msg:(%v)'' [E err])), tr3)
      | (None, tr3) \<Rightarrow>
     (let tr4 = log_Println w ''OEM parititon unmounted.'' tr3 in
      case veritysetup w imageID oemFSSize4K tr4 of
        (Panic m, tr5) \<Rightarrow> (Panic m, tr5)
      | (Return (hash, salt, Some err), tr5) \<Rightarrow>
          (Return (Some (Errorf
             (''cannot run veritysetup, input:oemFSSize4K=%d, '' @ ''error msg:(%v)'')
             [U oemFSSize4K, E err])), tr5)
      | (Return (hash, salt, None), tr5) \<Rightarrow>
     (case mountEFIPartition w tr5 of
        (Panic m, tr6) \<Rightarrow> (Panic m, tr6)
      | (Return (grubPath, merr), tr6) \<Rightarrow>
     (let tr7 = log_Println w ''EFI parititon mounted.'' tr6 in
      case merr of
        Some err \<Rightarrow>
          (Return (Some (Errorf
             ''cannot mount EFI partition (/dev/sda12), error msg:(%v)'' [E err])), tr7)
      | None \<Rightarrow>
     (let (u, tr8) = call w (GetPartUUID ''/dev/sda8'') tr7 in
      if \<not> ok u then
        (Return (Some (Errorf ''cannot read partUUID of /dev/sda8'' [])), tr8)
      else
     (let partUUID = out u in
      case appendDMEntryToGRUB w grubPath devName partUUID hash salt oemFSSize4K tr8 of
        (Panic m, tr9) \<Rightarrow> (Panic m, tr9)
      | (Return (Some err), tr9) \<Rightarrow>
          (Return (Some (Errorf
             (''error in appending entry to grub.cfg, input:oemFSSize4K=%d, ''
                @ ''error msg:(%v)'')
             [U oemFSSize4K, E err])), tr9)
      | (Return None, tr9) \<Rightarrow>
     (let tr10 = log_Println w ''kernel command line modified.'' tr9 in
      case removeVeritysetupImage w imageID tr10 of
        (Some err, tr11) \<Rightarrow>
          (Return (Some (Errorf
             ''cannot remove veritysetup container or image, error msg:(%v)'' [E err])), tr11)
      | (None, tr11) \<Rightarrow>
          (Return None,
           log_Println w ''docker image and container for veritysetup removed.'' tr11)))))))))"

section \<open>The unit converter (package partutil)\<close>

text \<open>
  Modelled from the spec: \<open>partutil.ConvertSizeToBytes\<close> and
  \<open>partutil.ConvertSizeToGBRoundUp\<close>, whose source is not part of the files at hand.
  The spec (Unit Converter): a decimal number followed by an optional single-letter unit
  \<open>B\<close>, \<open>K\<close>, \<open>M\<close> or \<open>G\<close>, with 1K = 1024 bytes, 1M = 1024K, 1G = 1024M; without a
  unit the number counts 512-byte sectors. Non-numeric input, an unknown unit and negative
  values are rejected (a sign is not a digit). The conversion must be exact, so a size
  that does not fit the 64-bit result is rejected as well. Rounding to gigabytes is
  integer division rounded up.
\<close>

definition is_digit :: "char \<Rightarrow> bool" where
  "is_digit c = (48 \<le> (of_char c :: nat) \<and> (of_char c :: nat) \<le> 57)"

fun parse_digits :: "nat \<Rightarrow> string \<Rightarrow> nat option" where
  "parse_digits acc [] = Some acc"
| "parse_digits acc (c # cs) =
     (if is_digit c then parse_digits (acc * 10 + (of_char c - 48)) cs else None)"

definition parse_decimal :: "string \<Rightarrow> nat option" where
  "parse_decimal s = (if s = [] then None else parse_digits 0 s)"

definition ConvertSizeToBytes :: "string \<Rightarrow> 64 word \<times> error option" where
  "ConvertSizeToBytes sizeStr =
     (if sizeStr = [] then (0, Some (Errorf ''InvalidFormat'' [S sizeStr]))
      else
        (let u = last sizeStr;
             (num, unit) =
               (if u = CHR ''B'' then (butlast sizeStr, 1)
                else if u = CHR ''K'' then (butlast sizeStr, 1024)
                else if u = CHR ''M'' then (butlast sizeStr, 1024 * 1024)
                else if u = CHR ''G'' then (butlast sizeStr, 1024 * 1024 * 1024)
                else (sizeStr, 512 :: nat))
         in case parse_decimal num of
              None \<Rightarrow> (0, Some (Errorf ''InvalidFormat'' [S sizeStr]))
            | Some n \<Rightarrow>
                if n * unit < 2 ^ 64 then (word_of_nat (n * unit), None)
                else (0, Some (Errorf ''InvalidFormat'' [S sizeStr]))))"

definition ConvertSizeToGBRoundUp :: "string \<Rightarrow> 64 word \<times> error option" where
  "ConvertSizeToGBRoundUp sizeStr =
     (case ConvertSizeToBytes sizeStr of
        (b, Some err) \<Rightarrow> (0, Some err)
      | (b, None) \<Rightarrow> (word_of_nat ((unat b + (2 ^ 30 - 1)) div 2 ^ 30), None))"

section \<open>cmd/finish\_image\_build.go: validateOEM\<close>

text \<open>
  The fields of \<open>config.Build\<close> that \<open>validateOEM\<close> reads and writes. \<open>DiskSize\<close> is a Go
  \<open>int\<close> (64 bits, read signed with \<open>sint\<close>); the conversion \<open>(uint64)(DiskSize)\<close>
  keeps the bits.
\<close>

record Build =
  SealOEM :: bool
  OEMSize :: string
  OEMFSSize4K :: "64 word"
  DiskSize :: "64 word"

definition imgSize :: "64 word" where
  "imgSize = 10"

text \<open>
  The part of \<open>validateOEM\<close> after the two branches have set \<open>sizeErrorMsg\<close> and
  \<open>oemSizeBytes\<close>: rounding to gigabytes, the check of the disk size, the shrinking by 1MB.
\<close>

definition validateOEM_check :: "string \<Rightarrow> 64 word \<Rightarrow> Build \<Rightarrow> error option \<times> Build" where
  "validateOEM_check sizeErrorMsg oemSizeBytes buildConfig =
     (case ConvertSizeToGBRoundUp (FormatUint oemSizeBytes @ ''B'') of
        (oemSizeGB, Some err) \<Rightarrow>
          (Some (Errorf ''invalid format of oem-size: %q, error msg:(%v)''
             [S (OEMSize buildConfig), E err]), buildConfig)
      | (oemSizeGB, None) \<Rightarrow>
          if DiskSize buildConfig < imgSize + oemSizeGB then
            (Some (Errorf sizeErrorMsg [U imgSize]), buildConfig)
          else
            (None, buildConfig\<lparr>OEMSize := FormatUint (drop_bit 20 oemSizeBytes - 1) @ ''M''\<rparr>))"

definition validateOEM :: "Build \<Rightarrow> error option \<times> Build" where
  "validateOEM buildConfig =
     (if \<not> SealOEM buildConfig then
        (if OEMSize buildConfig = [] then (None, buildConfig)
         else
           (let sizeErrorMsg =
                  '''disk-size-gb' must be at least 'oem-size' + image size (%dGB)'' in
            case ConvertSizeToBytes (OEMSize buildConfig) of
              (oemSizeBytes, Some err) \<Rightarrow>
                (Some (Errorf ''invalid format of oem-size: %q, error msg:(%v)''
                   [S (OEMSize buildConfig), E err]), buildConfig)
            | (oemSizeBytes, None) \<Rightarrow> validateOEM_check sizeErrorMsg oemSizeBytes buildConfig))
      else
        (if OEMSize buildConfig = [] then
           (if sint (DiskSize buildConfig) < 11 then
              (Some (Errorf
                 (''need extra disk space to seal the OEM partition, ''
                    @ ''disk-size-gb should be at least 11'') []), buildConfig)
            else (None, buildConfig\<lparr>OEMSize := ''32M'', OEMFSSize4K := 4096\<rparr>))
         else
           (let sizeErrorMsg =
                  '''disk-size-gb' must be at least 'oem-size' x 2 + image size (%dGB)'' in
            case ConvertSizeToBytes (OEMSize buildConfig) of
              (oemSizeBytes, Some err) \<Rightarrow>
                (Some (Errorf ''invalid format of oem-size: %q, error msg:(%v)''
                   [S (OEMSize buildConfig), E err]), buildConfig)
            | (oemSizeBytes, None) \<Rightarrow>
                validateOEM_check sizeErrorMsg (push_bit 1 oemSizeBytes)
                  (buildConfig\<lparr>OEMFSSize4K := drop_bit 12 oemSizeBytes\<rparr>))))"

section \<open>The spec's reading of a boot entry\<close>

text \<open>
  The spec's words, not the code: the entry count of a line is the token immediately
  following \<open>dm="\<close>, a decimal number ended by a space.
\<close>

definition spec_entry_count :: "string \<Rightarrow> nat option" where
  \<open>spec_entry_count line =
     (let i = strings_Index line ''dm="'' in
      if i < 0 then None
      else parse_decimal (takeWhile (\<lambda>c. c \<noteq> CHR '' '') (drop (nat i + 4) line)))\<close>

text \<open>The line of the spec's example and the line it is patched to.\<close>

definition example_line :: string where
  \<open>example_line = ''... root=/dev/dm-0 dm="1 vroot none ro 1,0 100 verity ..."''\<close>

definition example_patched :: string where
  \<open>example_patched =
     ''... root=/dev/dm-0 dm="2 vroot none ro 1,0 100 verity ...,''
       @ ''oemroot none ro 1, 0 2048 verity payload=PARTUUID=ABCD hashtree=PARTUUID=ABCD ''
       @ ''hashstart=2048 alg=sha256 root_hexdigest=h salt=s"''\<close>

text \<open>
  The build configurations of the spec's budget examples: a requested OEM size of
  \<open>1G\<close>, sealing on or off, and a disk size in GB.
\<close>

definition example_build :: "bool \<Rightarrow> int \<Rightarrow> Build" where
  "example_build seal disk =
     \<lparr>SealOEM = seal, OEMSize = ''1G'', OEMFSSize4K = 0, DiskSize = word_of_int disk\<rparr>"



text \<open>A string of ASCII bytes only: there bytes and runes are the same.\<close>

definition is_ascii :: "string \<Rightarrow> bool" where
  "is_ascii s = list_all (\<lambda>c. (of_char c :: nat) < 0x80) s"

text \<open>A grub.cfg of three lines, the second one the spec's example line.\<close>

definition example_grub_cfg :: string where
  "example_grub_cfg = ''set default=0'' @ ''\<newline>'' @ example_line @ ''\<newline>'' @ ''boot''"

text \<open>A report of the hash tree tool that has no \<open>Salt:\<close> line.\<close>

definition output_without_salt :: string where
  "output_without_salt =
     ''VERITY header information for /dev/sda8'' @ ''\<newline>''
       @ ''UUID:'' @ ''\<newline>''
       @ ''Hash algorithm:         sha256'' @ ''\<newline>''
       @ ''Root hash:              d6b862d01e01e641'' @ ''\<newline>''"

text \<open>
  The three steps that the spec puts in an order, and the events that belong to them:
  \<open>df\<close> and \<open>umount\<close> make sure that the OEM partition is not mounted, \<open>docker load\<close>
  loads the image of the hash tree tool, \<open>docker run\<close> runs the tool. The spec's order
  is unmount, load, run; the order of the code is load, unmount, run.
\<close>

datatype step = EnsureUnmounted | LoadImage | RunHashTool

fun step_of :: "event \<Rightarrow> step option" where
  "step_of (Exec argv) =
     (if take 3 argv = [''sudo'', ''docker'', ''load''] then Some LoadImage
      else if argv = [''df''] \<or> take 2 argv = [''sudo'', ''umount''] then Some EnsureUnmounted
      else if take 3 argv = [''sudo'', ''docker'', ''run''] then Some RunHashTool
      else None)"
| "step_of (ReadFile p) = None"
| "step_of (WriteFile p c) = None"
| "step_of (GetPartUUID p) = None"
| "step_of (Log m) = None"

definition steps :: "event list \<Rightarrow> step list" where
  "steps tr = List.map_filter step_of tr"

fun spec_rank :: "step \<Rightarrow> nat" where
  "spec_rank EnsureUnmounted = 0"
| "spec_rank LoadImage = 1"
| "spec_rank RunHashTool = 2"

fun code_rank :: "step \<Rightarrow> nat" where
  "code_rank LoadImage = 0"
| "code_rank EnsureUnmounted = 1"
| "code_rank RunHashTool = 2"

text \<open>
  A world in which every command succeeds, except that the removal of the docker image
  succeeds only if \<open>cleanup_ok\<close>: the OEM partition is mounted, the tool reports the salt
  \<open>s\<close> and the root hash \<open>h\<close>, the partition UUID is \<open>ABCD\<close>, grub.cfg is the example
  file. The answer depends on the last event only.
\<close>

definition example_output :: string where
  "example_output =
     ''Hash algorithm:         sha256'' @ ''\<newline>''
       @ ''Salt:                   s'' @ ''\<newline>''
       @ ''Root hash:              h'' @ ''\<newline>''"

definition example_world :: "bool \<Rightarrow> world" where
  "example_world cleanup_ok tr =
     (case last tr of
        Exec argv \<Rightarrow>
          if argv = [''sudo'', ''docker'', ''images'', ''veritysetup:veritysetup'', ''-q'']
            then Reply True (''4f2d'' @ ''\<newline>'')
          else if argv = [''df''] then Reply True ''/dev/sda8  16M  1M  15M  /usr/share/oem''
          else if take 3 argv = [''sudo'', ''docker'', ''run''] then Reply True example_output
          else if argv = [''mktemp'', ''-d''] then Reply True (''/tmp/tmp.x'' @ ''\<newline>'')
          else if take 3 argv = [''sudo'', ''docker'', ''rmi'']
            then Reply cleanup_ok ''exit status 1''
          else Reply True []
      | ReadFile p \<Rightarrow> Reply True example_grub_cfg
      | WriteFile p c \<Rightarrow> Reply True []
      | GetPartUUID p \<Rightarrow> Reply True ''ABCD''
      | Log m \<Rightarrow> Reply True [])"

text \<open>The cleanup command: the removal of the docker image.\<close>

fun is_cleanup :: "event \<Rightarrow> bool" where
  "is_cleanup (Exec argv) = (take 3 argv = [''sudo'', ''docker'', ''rmi''])"
| "is_cleanup (ReadFile p) = False"
| "is_cleanup (WriteFile p c) = False"
| "is_cleanup (GetPartUUID p) = False"
| "is_cleanup (Log m) = False"

section \<open>Properties\<close>

subsection \<open>The boot configuration patcher\<close>

text \<open>
  Claim C5. The spec's grub example: grub.cfg holds the one line
  \<open>... root=/dev/dm-0 dm="1 vroot none ro 1,0 100 verity ..."\<close>; with device name
  \<open>oemroot\<close>, 256 data blocks of 4K, partition UUID \<open>ABCD\<close>, hash \<open>h\<close> and salt \<open>s\<close> the
  patcher reads the file and writes back the line with entry count 2 (it was 1), ending
  with the appended row
  \<open>oemroot none ro 1, 0 2048 verity payload=PARTUUID=ABCD hashtree=PARTUUID=ABCD
  hashstart=2048 alg=sha256 root_hexdigest=h salt=s"\<close> after a comma, and returns no error.
\<close>

theorem C5_grub_example:
  "appendDMEntryToGRUB (\<lambda>tr. Reply True example_line) ''/boot'' ''oemroot'' ''ABCD'' ''h'' ''s''
       256 []
     = (Return None,
        [ReadFile ''/boot/grub.cfg'', WriteFile ''/boot/grub.cfg'' example_patched])
   \<and> spec_entry_count example_line = Some 1
   \<and> spec_entry_count example_patched = Some 2"
  by code_simp

subsection \<open>Decimal numbers read back\<close>

lemma parse_digits_append:
  "parse_digits acc (xs @ ys) =
     (case parse_digits acc xs of None \<Rightarrow> None | Some a \<Rightarrow> parse_digits a ys)"
  by (induction xs arbitrary: acc) auto

lemma digit_char:
  "n < 10 \<Longrightarrow> is_digit (char_of (48 + n)) \<and> (of_char (char_of (48 + n)) :: nat) = 48 + n"
  by (simp add: is_digit_def)

lemma decimal_nonempty: "decimal n \<noteq> []"
  by (subst decimal.simps) simp

lemma parse_digits_decimal: "parse_digits 0 (decimal n) = Some n"
proof (induction n rule: decimal.induct)
  case (1 n)
  show ?case
  proof (cases "n < 10")
    case True
    then show ?thesis
      by (subst decimal.simps) (simp add: digit_char)
  next
    case False
    then have IH: "parse_digits 0 (decimal (n div 10)) = Some (n div 10)"
      using "1.IH" by simp
    have d: "n mod 10 < 10" by simp
    show ?thesis
      using False IH digit_char [OF d]
      by (subst decimal.simps) (simp add: parse_digits_append)
  qed
qed

lemma parse_decimal_decimal: "parse_decimal (decimal n) = Some n"
  by (simp add: parse_decimal_def decimal_nonempty parse_digits_decimal)




text \<open>
  \<open>validateOEM\<close> prints the byte count with the unit \<open>B\<close> and has it converted again:
  that conversion gives the byte count back, and its rounding to GB cannot fail.
\<close>

lemma ConvertSizeToBytes_FormatUint:
  "ConvertSizeToBytes (FormatUint b @ ''B'') = (b, None)"
proof -
  have "unat b < 2 ^ 64" using unsigned_less [of b, where ?'a = nat] by simp
  then show ?thesis
    by (simp add: ConvertSizeToBytes_def FormatUint_def parse_decimal_decimal)
qed

lemma ConvertSizeToGBRoundUp_FormatUint:
  "ConvertSizeToGBRoundUp (FormatUint b @ ''B'')
     = (word_of_nat ((unat b + (2 ^ 30 - 1)) div 2 ^ 30), None)"
  by (simp only: ConvertSizeToGBRoundUp_def ConvertSizeToBytes_FormatUint prod.case option.case)

lemma ConvertSizeToBytes_1G: "ConvertSizeToBytes ''1G'' = (1073741824, None)"
  by (simp add: ConvertSizeToBytes_def parse_decimal_def is_digit_def)

subsection \<open>The disk budget validator\<close>



lemma validateOEM_check_OEMFSSize4K:
  "OEMFSSize4K (snd (validateOEM_check msg x c)) = OEMFSSize4K c"
  by (simp add: validateOEM_check_def split: prod.splits option.splits)

text \<open>
  A negative \<open>disk-size-gb\<close> is not in the range of the theorems below: converted to
  \<open>uint64\<close> it is a huge number, and the check of the disk size passes.
\<close>

lemma validateOEM_negative_disk_size:
  "fst (validateOEM \<lparr>SealOEM = False, OEMSize = ''1G'', OEMFSSize4K = 0, DiskSize = - 1\<rparr>) = None"
  by (simp add: validateOEM_def validateOEM_check_def ConvertSizeToBytes_1G
        ConvertSizeToGBRoundUp_FormatUint imgSize_def)






text \<open>
  Claim C9. Sealing enabled and an OEM size requested that converts to \<open>b\<close> bytes: the
  count of 4K data blocks that \<open>validateOEM\<close> leaves in the build configuration is
  \<open>b >> 12\<close>, the requested size divided by 4096 and rounded down, whatever the doubling
  for the hash tree and the shrinking by 1MB do to the partition size.
\<close>

theorem C9_data_blocks_from_requested_size:
  assumes "SealOEM cfg" and "OEMSize cfg \<noteq> []"
    and "ConvertSizeToBytes (OEMSize cfg) = (b, None)"
  shows "OEMFSSize4K (snd (validateOEM cfg)) = drop_bit 12 b
         \<and> unat (OEMFSSize4K (snd (validateOEM cfg))) = unat b div 4096"
proof -
  have "OEMFSSize4K (snd (validateOEM cfg)) = drop_bit 12 b"
    using assms by (simp add: validateOEM_def validateOEM_check_OEMFSSize4K)
  then show ?thesis by (simp add: drop_bit_eq_div unat_div)
qed

theorem C9_data_blocks_witness:
  "OEMFSSize4K (snd (validateOEM (example_build True 12))) = 262144
   \<and> OEMFSSize4K (snd (validateOEM (example_build True 11))) = 262144"
  using C9_data_blocks_from_requested_size [of "example_build True 12" 1073741824]
    C9_data_blocks_from_requested_size [of "example_build True 11" 1073741824]
  by (simp add: example_build_def ConvertSizeToBytes_1G drop_bit_eq_div)

subsection \<open>Splitting, joining and searching strings\<close>

lemma strings_Split_unfold:
  "sep \<noteq> [] \<Longrightarrow> strings_Split s sep =
     (if strings_Index s sep < 0 then [s]
      else take (nat (strings_Index s sep)) s
             # strings_Split (drop (nat (strings_Index s sep) + length sep) s) sep)"
  by (subst strings_Split.simps) (simp add: Let_def)

lemma strings_Split_nonempty: "sep \<noteq> [] \<Longrightarrow> strings_Split s sep \<noteq> []"
  by (subst strings_Split_unfold) simp_all

lemma strings_Join_Cons:
  "xs \<noteq> [] \<Longrightarrow> strings_Join (x # xs) sep = x @ sep @ strings_Join xs sep"
  by (cases xs) simp_all

lemma strings_Join_snoc:
  "xs \<noteq> [] \<Longrightarrow> strings_Join (xs @ [e]) sep = strings_Join xs sep @ sep @ e"
proof (induction xs)
  case Nil
  then show ?case by simp
next
  case (Cons x xs)
  then show ?case by (cases xs) simp_all
qed

lemma strings_Join_Split:
  "sep \<noteq> [] \<Longrightarrow> strings_Join (strings_Split s sep) sep = s"
proof (induction s sep rule: strings_Split.induct)
  case (1 s sep)
  define m where "m = strings_Index s sep"
  show ?case
  proof (cases "m < 0")
    case True
    then show ?thesis
      using "1.prems" by (subst strings_Split_unfold) (simp_all add: m_def)
  next
    case False
    then have nn: "0 \<le> strings_Index s sep" by (simp add: m_def)
    have IH: "strings_Join (strings_Split (drop (nat m + length sep) s) sep) sep
                = drop (nat m + length sep) s"
      using "1.IH" [of m] "1.prems" False by (simp add: m_def)
    have sp: "strings_Split s sep = take (nat m) s # strings_Split (drop (nat m + length sep) s) sep"
      using "1.prems" False by (subst strings_Split_unfold) (simp_all add: m_def)
    have f: "take (length sep) (drop (nat m) s) = sep"
      using strings_Index_found [OF nn] by (simp add: m_def)
    have a: "take (nat m) s @ drop (nat m) s = s"
      by (rule append_take_drop_id)
    have b: "take (length sep) (drop (nat m) s) @ drop (length sep) (drop (nat m) s)
               = drop (nat m) s"
      by (rule append_take_drop_id)
    have c: "drop (length sep) (drop (nat m) s) = drop (nat m + length sep) s"
      by (simp add: add.commute)
    have "s = take (nat m) s @ sep @ drop (nat m + length sep) s"
      using a b [unfolded f c] by simp
    then show ?thesis
      using "1.prems" by (simp add: sp strings_Join_Cons strings_Split_nonempty IH)
  qed
qed

lemma strings_Index_none: "sub \<noteq> [] \<Longrightarrow> hd sub \<notin> set s \<Longrightarrow> strings_Index s sub = - 1"
proof (induction s)
  case Nil
  then show ?case by simp
next
  case (Cons c s)
  then have "\<not> strings_HasPrefix (c # s) sub"
    by (cases sub) (auto simp: strings_HasPrefix_def)
  with Cons show ?case by (simp add: Let_def)
qed

lemma strings_Split_none:
  "sep \<noteq> [] \<Longrightarrow> hd sep \<notin> set s \<Longrightarrow> strings_Split s sep = [s]"
  by (subst strings_Split_unfold) (simp_all add: strings_Index_none)

subsection \<open>The new value of a line\<close>

lemma runes_of_string_Nil: "runes_of_string [] = []"
  by (subst runes_of_string.simps) simp

lemma runes_of_string_ascii: "is_ascii s \<Longrightarrow> runes_of_string s = map of_char s"
proof (induction s)
  case Nil
  then show ?case by (simp add: runes_of_string_Nil)
next
  case (Cons c s)
  then have c: "(of_char c :: nat) < 0x80" and s: "is_ascii s"
    by (simp_all add: is_ascii_def)
  have "runes_of_string (c # s) = of_char c # runes_of_string s"
    using c by (subst runes_of_string.simps) (simp add: Let_def)
  then show ?case using Cons.IH [OF s] by simp
qed

lemma string_of_runes_ascii: "is_ascii s \<Longrightarrow> string_of_runes (map of_char s) = s"
  by (induction s) (simp_all add: string_of_runes_def is_ascii_def EncodeRune_def)

lemma is_ascii_update: "is_ascii s \<Longrightarrow> (of_char c :: nat) < 0x80 \<Longrightarrow> is_ascii (s[i := c])"
  unfolding is_ascii_def list_all_iff using set_update_subset_insert [of s i c] by auto

lemma is_ascii_take: "is_ascii s \<Longrightarrow> is_ascii (take n s)"
  unfolding is_ascii_def list_all_iff by (auto dest: in_set_takeD)

text \<open>The new value of a line that contains \<open>dm=\<close>, in general and for an ASCII line.\<close>

lemma appendDMEntryToGRUB_line_dm:
  assumes "strings_Contains line ''dm=''"
  shows "appendDMEntryToGRUB_line entry line =
     (let startPos = strings_Index line ''dm='';
          lineBuf = runes_of_string (butlast line)
      in if int (length lineBuf) \<le> startPos + 4 then Panic ''index out of range''
         else Return (string_of_runes (lineBuf[nat (startPos + 4) := of_char (CHR ''2'')])
                        @ '','' @ entry))"
proof -
  have nn: "0 \<le> strings_Index line ''dm=''"
    using assms by (simp add: strings_Contains_def)
  have len: "3 \<le> length line"
    using strings_Index_fits [OF nn] by simp
  have bl: "take (nat (int (length line) - 1)) line = butlast line"
    by (simp add: butlast_conv_take nat_diff_distrib')
  have js: "strings_Join (strings_Split t '','' @ [entry]) '','' = t @ '','' @ entry" for t
    by (simp add: strings_Join_snoc strings_Split_nonempty strings_Join_Split)
  have ne: "line \<noteq> []" using len by auto
  show ?thesis
    using assms nn ne
    by (simp add: appendDMEntryToGRUB_line_def Let_def bl js)
qed

lemma appendDMEntryToGRUB_line_ascii:
  assumes "strings_Contains line ''dm=''" and "is_ascii line"
  shows "appendDMEntryToGRUB_line entry line =
     (if int (length line) < strings_Index line ''dm='' + 6 then Panic ''index out of range''
      else Return ((butlast line)[nat (strings_Index line ''dm='' + 4) := CHR ''2'']
                     @ '','' @ entry))"
proof -
  have a: "is_ascii (butlast line)"
    using assms(2) by (simp add: butlast_conv_take is_ascii_take)
  have r: "runes_of_string (butlast line) = map of_char (butlast line)"
    by (rule runes_of_string_ascii [OF a])
  have u: "string_of_runes ((map of_char (butlast line))[i := of_char (CHR ''2'')])
             = (butlast line)[i := CHR ''2'']" for i
    using string_of_runes_ascii [OF is_ascii_update [OF a, of "CHR ''2''" i]]
    by (simp add: map_update)
  have nn: "0 \<le> strings_Index line ''dm=''"
    using assms by (simp add: strings_Contains_def)
  have len: "3 \<le> length line"
    using strings_Index_fits [OF nn] by simp
  have c: "int (length (butlast line)) \<le> strings_Index line ''dm='' + 4
             \<longleftrightarrow> int (length line) < strings_Index line ''dm='' + 6"
    using len by (simp add: of_nat_diff) linarith
  show ?thesis
    unfolding appendDMEntryToGRUB_line_dm [OF assms(1)] Let_def r u
    using c by simp
qed




text \<open>
  Claim C10. For a line that contains \<open>dm=\<close> the patcher drops the last byte, turns the
  rest into runes and writes \<open>'2'\<close> at the index of \<open>dm=\<close> plus 4, whatever is there. The
  write panics with an index out of range exactly when the truncated line has no rune at
  that index; for an ASCII line, exactly when the line has fewer than six bytes from
  the start of \<open>dm=\<close> on (fewer than five before the truncated end). Otherwise the new
  line is the old one without its last byte, with \<open>'2'\<close> at that index, then a comma and
  the new row, which ends with the closing quote: the last byte of the old line is kept
  only if it was the closing quote. The witness has a line that is too short, \<open>dm="1\<close>,
  where the write panics.
\<close>

theorem C10_index_write_safety:
  assumes "strings_Contains line ''dm=''"
  shows "(appendDMEntryToGRUB_line (entryString name uuid hash salt n) line
            = Panic ''index out of range''
          \<longleftrightarrow> int (length (runes_of_string (butlast line))) \<le> strings_Index line ''dm='' + 4)
       \<and> (is_ascii line \<longrightarrow>
            appendDMEntryToGRUB_line (entryString name uuid hash salt n) line =
              (if int (length line) < strings_Index line ''dm='' + 6
               then Panic ''index out of range''
               else Return ((butlast line)[nat (strings_Index line ''dm='' + 4) := CHR ''2'']
                              @ '','' @ entryString name uuid hash salt n)))
       \<and> last ((butlast line)[nat (strings_Index line ''dm='' + 4) := CHR ''2'']
                  @ '','' @ entryString name uuid hash salt n) = CHR 0x22"
  using appendDMEntryToGRUB_line_ascii [OF assms]
  by (simp add: appendDMEntryToGRUB_line_dm [OF assms] Let_def entryString_def)

theorem C10_index_write_safety_witness:
  \<open>appendDMEntryToGRUB_line (entryString ''oemroot'' ''ABCD'' ''h'' ''s'' 2048) ''dm="1''
     = Panic ''index out of range''
   \<and> appendDMEntryToGRUB_line (entryString ''oemroot'' ''ABCD'' ''h'' ''s'' 2048) ''dm="1 '' 
     = Return (''dm="2,'' @ entryString ''oemroot'' ''ABCD'' ''h'' ''s'' 2048)\<close>
proof -
  have c1: \<open>strings_Contains ''dm="1'' ''dm=''\<close> by code_simp
  have c2: \<open>strings_Contains ''dm="1 '' ''dm=''\<close> by code_simp
  have a1: \<open>is_ascii ''dm="1''\<close> by code_simp
  have a2: \<open>is_ascii ''dm="1 ''\<close> by code_simp
  have i1: \<open>strings_Index ''dm="1'' ''dm='' = 0\<close> by code_simp
  have i2: \<open>strings_Index ''dm="1 '' ''dm='' = 0\<close> by code_simp
  show ?thesis
    using C10_index_write_safety [OF c1, of "''oemroot''" "''ABCD''" "''h''" "''s''" 2048]
      C10_index_write_safety [OF c2, of "''oemroot''" "''ABCD''" "''h''" "''s''" 2048]
    unfolding i1 i2 using a1 a2 by simp
qed




text \<open>What the loop does to the list of lines.\<close>

lemma appendDMEntryToGRUB_loop_frame:
  "appendDMEntryToGRUB_loop entry lines = Return lines' \<Longrightarrow>
     length lines' = length lines
     \<and> (\<forall>i < length lines. \<not> strings_Contains (lines ! i) ''dm='' \<longrightarrow> lines' ! i = lines ! i)"
proof (induction lines arbitrary: lines')
  case Nil
  then show ?case by simp
next
  case (Cons l ls)
  from Cons.prems obtain l' ls' where
    l: "appendDMEntryToGRUB_line entry l = Return l'"
    and ls: "appendDMEntryToGRUB_loop entry ls = Return ls'"
    and eq: "lines' = l' # ls'"
    by (auto split: result.splits)
  have h: "\<not> strings_Contains l ''dm='' \<Longrightarrow> l' = l"
    using l by (simp add: appendDMEntryToGRUB_line_def)
  from Cons.IH [OF ls] h eq show ?case
    by (auto simp: nth_Cons split: nat.splits)
qed

text \<open>
  Claim C8. When the patcher returns without error, it has read grub.cfg and written it
  once, as the lines of the new list joined by newlines; the new list is as long as the
  list of lines read, and every line that does not contain \<open>dm=\<close> is in it unchanged, at
  the same place.
\<close>

theorem C8_other_lines_unchanged:
  assumes "appendDMEntryToGRUB w grubPath name partUUID hash salt oemFSSize4K tr
             = (Return None, tr')"
  shows "\<exists>lines'.
           tr' = tr @ [ReadFile (grubPath @ ''/grub.cfg''),
                       WriteFile (grubPath @ ''/grub.cfg'') (strings_Join lines' ''\<newline>'')]
         \<and> length lines' =
             length (strings_Split (out (w (tr @ [ReadFile (grubPath @ ''/grub.cfg'')]))) ''\<newline>'')
         \<and> (\<forall>i < length lines'.
               \<not> strings_Contains
                    (strings_Split (out (w (tr @ [ReadFile (grubPath @ ''/grub.cfg'')]))) ''\<newline>'' ! i)
                    ''dm=''
               \<longrightarrow> lines' ! i =
                     strings_Split (out (w (tr @ [ReadFile (grubPath @ ''/grub.cfg'')]))) ''\<newline>'' ! i)"
proof -
  define p where "p = grubPath @ ''/grub.cfg''"
  define lines where "lines = strings_Split (out (w (tr @ [ReadFile p]))) ''\<newline>''"
  define entry where "entry = entryString name partUUID hash salt (push_bit 3 oemFSSize4K)"
  from assms obtain lines' where
    loop: "appendDMEntryToGRUB_loop entry lines = Return lines'"
    and tr': "tr' = tr @ [ReadFile p, WriteFile p (strings_Join lines' ''\<newline>'')]"
    by (auto simp: appendDMEntryToGRUB_def call_def Let_def p_def lines_def entry_def
          split: if_splits result.splits)
  from appendDMEntryToGRUB_loop_frame [OF loop] tr' show ?thesis
    unfolding p_def [symmetric] lines_def [symmetric] by auto
qed


theorem C8_other_lines_unchanged_witness:
  "\<exists>lines'.
     appendDMEntryToGRUB (\<lambda>tr. Reply True example_grub_cfg) ''/boot'' ''oemroot'' ''ABCD'' ''h'' ''s''
         256 []
       = (Return None,
          [ReadFile ''/boot/grub.cfg'',
           WriteFile ''/boot/grub.cfg'' (strings_Join lines' ''\<newline>'')])
     \<and> length lines' = 3 \<and> lines' ! 0 = ''set default=0'' \<and> lines' ! 2 = ''boot''"
proof -
  define w :: world where "w = (\<lambda>tr. Reply True example_grub_cfg)"
  have run: "appendDMEntryToGRUB w ''/boot'' ''oemroot'' ''ABCD'' ''h'' ''s'' 256 []
      = (Return None,
         [ReadFile ''/boot/grub.cfg'',
          WriteFile ''/boot/grub.cfg''
            (''set default=0'' @ ''\<newline>'' @ example_patched @ ''\<newline>'' @ ''boot'')])"
    unfolding w_def by code_simp
  have sp: "strings_Split (out (w ([] @ [ReadFile (''/boot'' @ ''/grub.cfg'')]))) ''\<newline>''
      = [''set default=0'', example_line, ''boot'']"
    unfolding w_def by code_simp
  have c0: "\<not> strings_Contains ''set default=0'' ''dm=''" by code_simp
  have c2: "\<not> strings_Contains ''boot'' ''dm=''" by code_simp
  from C8_other_lines_unchanged [OF run] obtain lines' where
    tr: "[ReadFile ''/boot/grub.cfg'',
          WriteFile ''/boot/grub.cfg''
            (''set default=0'' @ ''\<newline>'' @ example_patched @ ''\<newline>'' @ ''boot'')]
         = [] @ [ReadFile (''/boot'' @ ''/grub.cfg''),
                 WriteFile (''/boot'' @ ''/grub.cfg'') (strings_Join lines' ''\<newline>'')]"
    and len: "length lines' = length [''set default=0'', example_line, ''boot'']"
    and same: "\<forall>i < length lines'.
        \<not> strings_Contains ([''set default=0'', example_line, ''boot''] ! i) ''dm=''
          \<longrightarrow> lines' ! i = [''set default=0'', example_line, ''boot''] ! i"
    unfolding sp by blast
  have l3: "length lines' = 3" using len by simp
  have "lines' ! 0 = ''set default=0''"
    using same [rule_format, of 0] l3 c0 by simp
  moreover have "lines' ! 2 = ''boot''"
    using same [rule_format, of 2] l3 c2 by simp
  moreover have "appendDMEntryToGRUB w ''/boot'' ''oemroot'' ''ABCD'' ''h'' ''s'' 256 []
       = (Return None,
          [ReadFile ''/boot/grub.cfg'',
           WriteFile ''/boot/grub.cfg'' (strings_Join lines' ''\<newline>'')])"
    using run tr by simp
  ultimately show ?thesis
    unfolding w_def using l3 by blast
qed


subsection \<open>White space and colons\<close>

text \<open>
  The bytes that a white space rune is decoded from do not include a colon, so a string
  that \<open>strings.TrimSpace\<close> trims to nothing has no colon in it.
\<close>

lemma DecodeRuneInString_shape:
  assumes "DecodeRuneInString (c0 # s') = (r, n)"
  shows "(n = 1 \<and> (r = RuneError \<or> (r = of_char c0 \<and> (of_char c0 :: nat) < 0x80)))
       \<or> (n = 2 \<and> 1 \<le> length s' \<and> 0x80 \<le> (of_char c0 :: nat)
            \<and> 0x80 \<le> (of_char (s' ! 0) :: nat))
       \<or> (n = 3 \<and> 2 \<le> length s' \<and> 0x80 \<le> (of_char c0 :: nat)
            \<and> 0x80 \<le> (of_char (s' ! 0) :: nat) \<and> 0x80 \<le> (of_char (s' ! 1) :: nat))
       \<or> (n = 4 \<and> 3 \<le> length s' \<and> 0x80 \<le> (of_char c0 :: nat)
            \<and> 0x80 \<le> (of_char (s' ! 0) :: nat) \<and> 0x80 \<le> (of_char (s' ! 1) :: nat)
            \<and> 0x80 \<le> (of_char (s' ! 2) :: nat))"
  using assms by (auto simp: Let_def Suc_le_eq split: if_splits)

lemma take_2_Cons: "1 \<le> length xs \<Longrightarrow> take 2 (x # xs) = [x, xs ! 0]"
  by (cases xs) simp_all

lemma take_3_Cons: "2 \<le> length xs \<Longrightarrow> take 3 (x # xs) = [x, xs ! 0, xs ! 1]"
proof (cases xs)
  case Nil
  assume "2 \<le> length xs"
  with Nil show ?thesis by simp
next
  case (Cons y ys)
  assume "2 \<le> length xs"
  with Cons have "1 \<le> length ys" by simp
  from take_2_Cons [OF this, of y] Cons show ?thesis
    by (simp add: numeral_3_eq_3 numeral_2_eq_2)
qed

lemma take_4_Cons: "3 \<le> length xs \<Longrightarrow> take 4 (x # xs) = [x, xs ! 0, xs ! 1, xs ! 2]"
proof (cases xs)
  case Nil
  assume "3 \<le> length xs"
  with Nil show ?thesis by simp
next
  case (Cons y ys)
  assume "3 \<le> length xs"
  with Cons have "2 \<le> length ys" by simp
  from take_3_Cons [OF this, of y] Cons show ?thesis
    by (simp add: numeral_eq_Suc)
qed

lemma DecodeRuneInString_space_bytes:
  assumes "IsSpace (fst (DecodeRuneInString s))"
  shows "CHR '':'' \<notin> set (take (snd (DecodeRuneInString s)) s)"
proof (cases s)
  case Nil
  then show ?thesis by simp
next
  case (Cons c0 s')
  obtain r n where d: "DecodeRuneInString (c0 # s') = (r, n)"
    by (cases "DecodeRuneInString (c0 # s')")
  have hi: "c \<noteq> CHR '':''" if "0x80 \<le> (of_char c :: nat)" for c
    using that by auto
  have nerr: "\<not> IsSpace RuneError" by (simp add: IsSpace_def RuneError_def)
  have sp: "IsSpace r" using assms Cons d by simp
  have lo: "c0 \<noteq> CHR '':''" if "r = of_char c0"
    using sp that by (auto simp: IsSpace_def)
  from DecodeRuneInString_shape [OF d] have "CHR '':'' \<notin> set (take n (c0 # s'))"
  proof (elim disjE conjE)
    assume "n = 1" "r = RuneError"
    with sp nerr show ?thesis by simp
  next
    assume "n = 1" "r = of_char c0"
    with lo show ?thesis by simp
  next
    assume "n = 2" "1 \<le> length s'" "0x80 \<le> (of_char c0 :: nat)"
      "0x80 \<le> (of_char (s' ! 0) :: nat)"
    then show ?thesis
      by (simp only: take_2_Cons) (auto dest: hi)
  next
    assume "n = 3" "2 \<le> length s'" "0x80 \<le> (of_char c0 :: nat)"
      "0x80 \<le> (of_char (s' ! 0) :: nat)" "0x80 \<le> (of_char (s' ! 1) :: nat)"
    then show ?thesis
      by (simp only: take_3_Cons) (auto dest: hi)
  next
    assume "n = 4" "3 \<le> length s'" "0x80 \<le> (of_char c0 :: nat)"
      "0x80 \<le> (of_char (s' ! 0) :: nat)" "0x80 \<le> (of_char (s' ! 1) :: nat)"
      "0x80 \<le> (of_char (s' ! 2) :: nat)"
    then show ?thesis
      by (simp only: take_4_Cons) (auto dest: hi)
  qed
  then show ?thesis using Cons d by simp
qed

lemma DecodeLastRuneInString_space_bytes:
  assumes ne: "s \<noteq> []" and sp: "IsSpace (fst (DecodeLastRuneInString s))"
  shows "CHR '':'' \<notin> set (drop (length s - snd (DecodeLastRuneInString s)) s)"
proof -
  define e where "e = int (length s)"
  define lim where "lim = (if e - 4 < 0 then 0 else e - 4)"
  define start where
    "start = (if lastRuneStart s (e - 2) lim < 0 then 0 else lastRuneStart s (e - 2) lim)"
  define p where "p = DecodeRuneInString (drop (nat start) s)"
  have e: "0 < e" using ne by (simp add: e_def)
  have D: "DecodeLastRuneInString s =
             (if (of_char (s ! nat (e - 1)) :: nat) < 0x80 then (of_char (s ! nat (e - 1)), 1)
              else if start + int (snd p) \<noteq> e then (RuneError, 1) else p)"
    using ne
    by (simp add: DecodeLastRuneInString_def Let_def case_prod_beta e_def lim_def start_def
          p_def)
  have st: "0 \<le> start" "start < e"
    using lastRuneStart_le [of s "e - 2" lim] e by (simp_all add: start_def)
  have nerr: "\<not> IsSpace RuneError" by (simp add: IsSpace_def RuneError_def)
  show ?thesis
  proof (cases "(of_char (s ! nat (e - 1)) :: nat) < 0x80")
    case True
    then have d: "DecodeLastRuneInString s = (of_char (s ! nat (e - 1)), 1)"
      by (simp add: D)
    have "nat (e - 1) = length s - 1" by (simp add: e_def nat_diff_distrib')
    then have l: "s ! nat (e - 1) = last s"
      using ne by (simp add: last_conv_nth)
    have "drop (length s - 1) s = [last s]"
      using ne by (metis append_butlast_last_id append_eq_conv_conj length_butlast)
    moreover have "last s \<noteq> CHR '':''"
      using sp d l by (auto simp: IsSpace_def)
    ultimately show ?thesis by (simp add: d)
  next
    case False
    show ?thesis
    proof (cases "start + int (snd p) \<noteq> e")
      case True
      with False sp nerr show ?thesis by (simp add: D)
    next
      case eq: False
      then have d: "DecodeLastRuneInString s = p" using False by (simp add: D)
      have n: "snd p = length s - nat start"
        using eq st unfolding e_def by linarith
      have "IsSpace (fst (DecodeRuneInString (drop (nat start) s)))"
        using sp d by (simp add: p_def)
      from DecodeRuneInString_space_bytes [OF this]
      have "CHR '':'' \<notin> set (take (snd p) (drop (nat start) s))"
        by (simp add: p_def)
      moreover have "take (snd p) (drop (nat start) s) = drop (nat start) s"
        by (simp add: n)
      moreover have "length s - snd p = nat start"
        using n st unfolding e_def by linarith
      ultimately show ?thesis by (simp add: d)
    qed
  qed
qed

lemma colon_TrimLeftSpace: "CHR '':'' \<in> set s \<Longrightarrow> CHR '':'' \<in> set (TrimLeftSpace s)"
proof (induction s rule: TrimLeftSpace.induct)
  case (1 s)
  then have ne: "s \<noteq> []" by auto
  show ?case
  proof (cases "IsSpace (fst (DecodeRuneInString s))")
    case True
    have "set s = set (take (snd (DecodeRuneInString s)) s)
                    \<union> set (drop (snd (DecodeRuneInString s)) s)"
      by (metis append_take_drop_id set_append)
    with "1.prems" DecodeRuneInString_space_bytes [OF True]
    have "CHR '':'' \<in> set (drop (snd (DecodeRuneInString s)) s)" by blast
    from "1.IH" [OF ne True this] show ?thesis
      using ne True by (subst TrimLeftSpace.simps) simp
  next
    case False
    with "1.prems" ne show ?thesis by (subst TrimLeftSpace.simps) simp
  qed
qed

lemma colon_TrimRightSpace: "CHR '':'' \<in> set s \<Longrightarrow> CHR '':'' \<in> set (TrimRightSpace s)"
proof (induction s rule: TrimRightSpace.induct)
  case (1 s)
  then have ne: "s \<noteq> []" by auto
  show ?case
  proof (cases "IsSpace (fst (DecodeLastRuneInString s))")
    case True
    have "set s = set (take (length s - snd (DecodeLastRuneInString s)) s)
                    \<union> set (drop (length s - snd (DecodeLastRuneInString s)) s)"
      by (metis append_take_drop_id set_append)
    with "1.prems" DecodeLastRuneInString_space_bytes [OF ne True]
    have "CHR '':'' \<in> set (take (length s - snd (DecodeLastRuneInString s)) s)" by blast
    from "1.IH" [OF ne True this] show ?thesis
      using ne True by (subst TrimRightSpace.simps) simp
  next
    case False
    with "1.prems" ne show ?thesis by (subst TrimRightSpace.simps) simp
  qed
qed

lemma strings_TrimSpace_empty_no_colon:
  "strings_TrimSpace s = [] \<Longrightarrow> CHR '':'' \<notin> set s"
  using colon_TrimRightSpace [OF colon_TrimLeftSpace, of s]
  by (auto simp: strings_TrimSpace_def)

subsection \<open>The report of the hash tree tool\<close>

lemma strings_Index_char:
  "c \<notin> set p \<Longrightarrow> strings_Index (p @ c # rest) [c] = int (length p)"
  by (induction p) (auto simp: strings_HasPrefix_def Let_def)

lemma strings_Split_char:
  "c \<notin> set p \<Longrightarrow> strings_Split (p @ c # rest) [c] = p # strings_Split rest [c]"
  by (subst strings_Split_unfold) (simp_all add: strings_Index_char)

lemma index_field:
  assumes "strings_HasPrefix line (p @ '':'')" and "CHR '':'' \<notin> set p"
  shows "index (strings_Split line '':'') 1
           = Return (hd (strings_Split (drop (length p + 1) line) '':''))"
proof -
  have "take (length p + 1) line = p @ '':''"
    using assms(1) by (simp add: strings_HasPrefix_def)
  then have "line = (p @ '':'') @ drop (length p + 1) line"
    by (metis append_take_drop_id)
  then have l: "line = p @ CHR '':'' # drop (length p + 1) line" by simp
  have "strings_Split line '':'' = p # strings_Split (drop (length p + 1) line) '':''"
    by (subst l) (rule strings_Split_char [OF assms(2)])
  moreover have "strings_Split (drop (length p + 1) line) '':'' \<noteq> []"
    by (rule strings_Split_nonempty) simp
  ultimately show ?thesis
    by (cases "strings_Split (drop (length p + 1) line) '':''") (simp_all add: index_def)
qed

lemma field_empty:
  assumes "strings_TrimSpace rest = []"
  shows "strings_TrimSpace (hd (strings_Split rest '':'')) = []"
proof -
  have "CHR '':'' \<notin> set rest"
    by (rule strings_TrimSpace_empty_no_colon [OF assms])
  then have "strings_Split rest '':'' = [rest]"
    by (intro strings_Split_none) simp_all
  with assms show ?thesis by simp
qed

lemma veritysetup_loop_result:
  "\<exists>hash' salt'.
     veritysetup_loop lines (hash, salt) = Return (hash', salt')
     \<and> ((\<forall>l \<in> set lines. strings_HasPrefix l ''Root hash:''
            \<longrightarrow> strings_TrimSpace (drop 10 l) = []) \<and> hash = [] \<longrightarrow> hash' = [])
     \<and> ((\<forall>l \<in> set lines. strings_HasPrefix l ''Salt:''
            \<longrightarrow> strings_TrimSpace (drop 5 l) = []) \<and> salt = [] \<longrightarrow> salt' = [])"
proof (induction lines arbitrary: hash salt)
  case Nil
  then show ?case by simp
next
  case (Cons line lines)
  have h: "index (strings_Split line '':'') 1 = Return (hd (strings_Split (drop 10 line) '':''))"
    if "strings_HasPrefix line ''Root hash:''"
  proof -
    have a: "strings_HasPrefix line (''Root hash'' @ '':'')" using that by simp
    have b: "CHR '':'' \<notin> set ''Root hash''" by simp
    have c: "length ''Root hash'' + 1 = 10" by simp
    show ?thesis using index_field [OF a b] unfolding c .
  qed
  have s: "index (strings_Split line '':'') 1 = Return (hd (strings_Split (drop 5 line) '':''))"
    if "strings_HasPrefix line ''Salt:''"
  proof -
    have a: "strings_HasPrefix line (''Salt'' @ '':'')" using that by simp
    have b: "CHR '':'' \<notin> set ''Salt''" by simp
    have c: "length ''Salt'' + 1 = 5" by simp
    show ?thesis using index_field [OF a b] unfolding c .
  qed
  show ?case
  proof (cases "strings_HasPrefix line ''Root hash:''")
    case True
    from Cons.IH [of "strings_TrimSpace (hd (strings_Split (drop 10 line) '':''))" salt]
    show ?thesis
      using True h field_empty [of "drop 10 line"] by auto
  next
    case False
    show ?thesis
    proof (cases "strings_HasPrefix line ''Salt:''")
      case True
      from Cons.IH [of hash "strings_TrimSpace (hd (strings_Split (drop 5 line) '':''))"]
      show ?thesis
        using True False s field_empty [of "drop 5 line"] by auto
    next
      case nosalt: False
      from Cons.IH [of hash salt] show ?thesis
        using False nosalt by auto
    qed
  qed
qed

lemma veritysetup_eq:
  \<open>veritysetup w imageID oemFSSize4K tr =
     (let tr1 = snd (veritysetup w imageID oemFSSize4K tr); r = w tr1
      in (if \<not> ok r then
            Return ([], [], Some (Errorf
              (''error in running docker veritysetup, ''
                 @ ''input: oemFSSize4K=%d, error msg: (%v)'')
              [U oemFSSize4K, E (External (out r))]))
          else
            (case veritysetup_loop (strings_Split (out r) ''\<newline>'') ([], []) of
               Panic m \<Rightarrow> Panic m
             | Return (hash, salt) \<Rightarrow>
                 if hash = [] \<or> salt = [] then
                   Return ([], [], Some (Errorf
                     (''error in veritsetup output format, cannot find "Salt:" or "Root hash:", ''
                        @ ''input: oemFSSize4K=%d, veritysetup output: %s'')
                     [U oemFSSize4K, S (out r)]))
                 else Return (hash, salt, None)),
          tr1))\<close>
  by (simp add: veritysetup_def call_def Let_def split: result.splits prod.splits)

text \<open>
  Claim C6. \<open>veritysetup\<close> returns either a hash and a salt that are both not empty,
  with no error, or an error with the empty hash and the empty salt: never one value
  without the other, and it never panics. When the tool ran and its output has no line
  with the prefix \<open>Root hash:\<close> that carries a value, or no line with the prefix \<open>Salt:\<close>
  that carries a value (the line is absent, or nothing but white space follows the
  colon), the result is the error about the output format.
\<close>

theorem C6_missing_field_is_an_error:
  assumes "veritysetup w imageID oemFSSize4K tr = (res, tr')"
  shows \<open>((\<exists>hash salt. res = Return (hash, salt, None) \<and> hash \<noteq> [] \<and> salt \<noteq> [])
          \<or> (\<exists>err. res = Return ([], [], Some err)))
       \<and> (ok (w tr')
            \<and> ((\<forall>l \<in> set (strings_Split (out (w tr')) ''\<newline>'').
                   strings_HasPrefix l ''Root hash:'' \<longrightarrow> strings_TrimSpace (drop 10 l) = [])
               \<or> (\<forall>l \<in> set (strings_Split (out (w tr')) ''\<newline>'').
                   strings_HasPrefix l ''Salt:'' \<longrightarrow> strings_TrimSpace (drop 5 l) = []))
            \<longrightarrow> res = Return ([], [], Some (Errorf
                   (''error in veritsetup output format, cannot find "Salt:" or "Root hash:", ''
                      @ ''input: oemFSSize4K=%d, veritysetup output: %s'')
                   [U oemFSSize4K, S (out (w tr'))])))\<close>
proof -
  obtain hash' salt' where
    loop: "veritysetup_loop (strings_Split (out (w tr')) ''\<newline>'') ([], []) = Return (hash', salt')"
    and h: "(\<forall>l \<in> set (strings_Split (out (w tr')) ''\<newline>'').
               strings_HasPrefix l ''Root hash:'' \<longrightarrow> strings_TrimSpace (drop 10 l) = [])
            \<longrightarrow> hash' = []"
    and s: "(\<forall>l \<in> set (strings_Split (out (w tr')) ''\<newline>'').
               strings_HasPrefix l ''Salt:'' \<longrightarrow> strings_TrimSpace (drop 5 l) = [])
            \<longrightarrow> salt' = []"
    using veritysetup_loop_result [of "strings_Split (out (w tr')) ''\<newline>''" "[]" "[]"]
    by auto
  have tr': "snd (veritysetup w imageID oemFSSize4K tr) = tr'"
    using assms by simp
  have r: \<open>res =
      (if \<not> ok (w tr') then
         Return ([], [], Some (Errorf
           (''error in running docker veritysetup, ''
              @ ''input: oemFSSize4K=%d, error msg: (%v)'')
           [U oemFSSize4K, E (External (out (w tr')))]))
       else if hash' = [] \<or> salt' = [] then
         Return ([], [], Some (Errorf
           (''error in veritsetup output format, cannot find "Salt:" or "Root hash:", ''
              @ ''input: oemFSSize4K=%d, veritysetup output: %s'')
           [U oemFSSize4K, S (out (w tr'))]))
       else Return (hash', salt', None))\<close>
    using veritysetup_eq [of w imageID oemFSSize4K tr]
    by (simp add: assms Let_def loop)
  show ?thesis
  proof (cases "ok (w tr')")
    case False
    then show ?thesis by (simp add: r)
  next
    case True
    show ?thesis
    proof (cases "hash' = [] \<or> salt' = []")
      case True
      with \<open>ok (w tr')\<close> show ?thesis by (simp add: r)
    next
      case False
      with \<open>ok (w tr')\<close> h s show ?thesis by (simp add: r)
    qed
  qed
qed

theorem C6_missing_field_witness:
  \<open>fst (veritysetup (\<lambda>tr. Reply True output_without_salt) ''4f2d'' 256 []) =
     Return ([], [], Some (Errorf
       (''error in veritsetup output format, cannot find "Salt:" or "Root hash:", ''
          @ ''input: oemFSSize4K=%d, veritysetup output: %s'')
       [U 256, S output_without_salt]))\<close>
proof -
  define w :: world where "w = (\<lambda>tr. Reply True output_without_salt)"
  obtain res tr' where v: "veritysetup w ''4f2d'' 256 [] = (res, tr')"
    by (cases "veritysetup w ''4f2d'' 256 []")
  have o: "out (w tr') = output_without_salt" and k: "ok (w tr')"
    by (simp_all add: w_def)
  have "list_all (\<lambda>l. \<not> strings_HasPrefix l ''Salt:'')
          (strings_Split output_without_salt ''\<newline>'')"
    by code_simp
  then have m: "\<forall>l \<in> set (strings_Split (out (w tr')) ''\<newline>'').
             strings_HasPrefix l ''Salt:'' \<longrightarrow> strings_TrimSpace (drop 5 l) = []"
    unfolding o by (simp add: list_all_iff)
  from C6_missing_field_is_an_error [OF v] k m
  have \<open>res = Return ([], [], Some (Errorf
       (''error in veritsetup output format, cannot find "Salt:" or "Root hash:", ''
          @ ''input: oemFSSize4K=%d, veritysetup output: %s'')
       [U 256, S (out (w tr'))]))\<close>
    by blast
  then show ?thesis
    unfolding w_def [symmetric] v o by simp
qed

end
